theory Spec2Isabelle
  imports Main
begin

section \<open>Data model\<close>

text \<open>
  Both pages declare the same interface
  \<^verbatim>\<open>interface Message { _id?: string; author: string; text: string; timestamp?: number }\<close>.
  The optional fields are \<open>option\<close> values (\<open>None\<close> is \<^verbatim>\<open>undefined\<close>); the fields are
  prefixed with \<open>msg_\<close> because \<open>author\<close> and \<open>text\<close> are also names of the page state. The
  timestamp is whole epoch seconds and is never inspected by the code modelled here.
\<close>

record Message =
  msg_id :: "string option"
  msg_author :: string
  msg_text :: string
  msg_timestamp :: "int option"

text \<open>
  What the pages write to the console (only the label, the first argument of the call) and
  what they send to the backend.
\<close>

datatype console_entry = Log string | Error string

datatype request =
    GET_messages
  | POST_publish string string
  | PUT_edit string string

text \<open>
  The outcome of \<^verbatim>\<open>await fetch(...)\<close> is an input of the model: the promise rejects
  (a network error), or it resolves to a response with its \<^verbatim>\<open>ok\<close> flag and with what
  \<^verbatim>\<open>response.json()\<close> gives, \<open>None\<close> when the body does not decode. The body is typed
  as the pages type it, \<^verbatim>\<open>Message[]\<close>: a body that decodes to JSON of another shape (an
  error object, say), which \<^verbatim>\<open>loadMessages\<close> would store as it is, has no value here.
\<close>

datatype fetch_result =
    NetworkError
  | Response bool "Message list option"

text \<open>
  An exception that leaves a handler uncaught is a value: \<open>Uncaught e s\<close> carries the
  page state at the moment of the throw.
\<close>

datatype exn = SyntaxError | FetchFailed

datatype 's outcome = Done 's | Uncaught exn 's

fun state_of :: "'s outcome \<Rightarrow> 's" where
  "state_of (Done s) = s"
| "state_of (Uncaught e s) = s"

text \<open>
  The \<^verbatim>\<open>useState\<close> cells of a page (\<open>text_input\<close> is \<^verbatim>\<open>text\<close>, \<open>author_input\<close> is
  \<^verbatim>\<open>author\<close>), together with the console and the requests sent so far. The WebSocket
  page adds the \<^verbatim>\<open>messageIds\<close> ref, a \<^verbatim>\<open>Set<string>\<close>.
\<close>

record page_state =
  messages :: "Message list"
  text_input :: string
  author_input :: string
  editingId :: "string option"
  editText :: string
  isConnected :: bool
  console :: "console_entry list"
  requests :: "request list"

record ws_page_state = page_state +
  messageIds :: "string set"

definition sse_init :: page_state where
  "sse_init = \<lparr>messages = [], text_input = [], author_input = [], editingId = None,
     editText = [], isConnected = False, console = [], requests = []\<rparr>"

definition ws_init :: ws_page_state where
  "ws_init = \<lparr>messages = [], text_input = [], author_input = [], editingId = None,
     editText = [], isConnected = False, console = [], requests = [], messageIds = {}\<rparr>"

section \<open>JavaScript primitives used by the pages\<close>

text \<open>
  \<^verbatim>\<open>Array.prototype.findIndex\<close>: the index of the first element that satisfies the
  predicate, \<open>-1\<close> when there is none.
\<close>

fun findIndex_from :: "('a \<Rightarrow> bool) \<Rightarrow> 'a list \<Rightarrow> int \<Rightarrow> int" where
  "findIndex_from P [] k = -1"
| "findIndex_from P (x # xs) k = (if P x then k else findIndex_from P xs (k + 1))"

definition findIndex :: "('a \<Rightarrow> bool) \<Rightarrow> 'a list \<Rightarrow> int" where
  "findIndex P xs = findIndex_from P xs 0"

text \<open>
  \<^verbatim>\<open>!msg._id\<close>: an optional string is falsy when it is \<^verbatim>\<open>undefined\<close> or the empty string.
\<close>

fun falsy :: "string option \<Rightarrow> bool" where
  "falsy None = True"
| "falsy (Some i) = (i = [])"

text \<open>
  \<^verbatim>\<open>String.prototype.trim\<close> on the ASCII white space (tab, line feed, vertical tab, form
  feed, carriage return, space); the white space beyond ASCII that JavaScript also trims
  is not modelled.
\<close>

definition is_space :: "char \<Rightarrow> bool" where
  "is_space c = (c \<in> {CHR 0x09, CHR 0x0A, CHR 0x0B, CHR 0x0C, CHR 0x0D, CHR '' ''})"

definition trim :: "string \<Rightarrow> string" where
  "trim s = rev (dropWhile is_space (rev (dropWhile is_space s)))"

section \<open>The server-sent-events page\<close>

text \<open>
  \<^verbatim>\<open>loadMessages\<close>: the response's \<^verbatim>\<open>ok\<close> flag is not read; a rejected fetch and a body
  that does not decode both end in the \<^verbatim>\<open>catch\<close> block.
\<close>

definition sse_loadMessages :: "fetch_result \<Rightarrow> page_state \<Rightarrow> page_state" where
  "sse_loadMessages r s =
     (let s1 = s\<lparr>requests := requests s @ [GET_messages]\<rparr> in
      case r of
        NetworkError \<Rightarrow> s1\<lparr>console := console s1 @ [Error ''Failed to load messages:'']\<rparr>
      | Response ok body \<Rightarrow>
          (case body of
             None \<Rightarrow> s1\<lparr>console := console s1 @ [Error ''Failed to load messages:'']\<rparr>
           | Some msgs \<Rightarrow> s1\<lparr>messages := msgs\<rparr>))"

text \<open>
  \<^verbatim>\<open>handleNewMessage\<close>: the updater given to \<^verbatim>\<open>setMessages\<close>. The comparison
  \<^verbatim>\<open>m._id === msg._id\<close> also holds between two absent ids.
\<close>

definition sse_handleNewMessage :: "Message \<Rightarrow> page_state \<Rightarrow> page_state" where
  "sse_handleNewMessage msg s =
     (let prev = messages s;
          idx = findIndex (\<lambda>m. msg_id m = msg_id msg) prev
      in if idx \<noteq> -1 then s\<lparr>messages := prev[nat idx := msg]\<rparr>
         else s\<lparr>messages := prev @ [msg]\<rparr>)"

text \<open>
  \<^verbatim>\<open>evtSource.onmessage\<close>: \<^verbatim>\<open>JSON.parse\<close> belongs to the runtime and is a parameter,
  \<open>None\<close> standing for the \<^verbatim>\<open>SyntaxError\<close> it throws. The handler has no \<^verbatim>\<open>try\<close>.
\<close>

definition sse_onmessage ::
  "(string \<Rightarrow> Message option) \<Rightarrow> string \<Rightarrow> page_state \<Rightarrow> page_state outcome" where
  "sse_onmessage JSON_parse data s =
     (case JSON_parse data of
        None \<Rightarrow> Uncaught SyntaxError s
      | Some msg \<Rightarrow> Done (sse_handleNewMessage msg s))"

text \<open>
  \<^verbatim>\<open>sendMessage\<close> and \<^verbatim>\<open>saveEdit\<close>: the fetch is awaited outside any \<^verbatim>\<open>try\<close>, and the
  response is not looked at.
\<close>

definition sse_sendMessage :: "fetch_result \<Rightarrow> page_state \<Rightarrow> page_state outcome" where
  "sse_sendMessage r s =
     (if trim (text_input s) = [] \<or> trim (author_input s) = [] then Done s
      else
        let s1 = s\<lparr>requests := requests s @ [POST_publish (text_input s) (author_input s)]\<rparr>
        in case r of
             NetworkError \<Rightarrow> Uncaught FetchFailed s1
           | Response ok body \<Rightarrow> Done (s1\<lparr>text_input := []\<rparr>))"

definition sse_saveEdit :: "fetch_result \<Rightarrow> string \<Rightarrow> page_state \<Rightarrow> page_state outcome" where
  "sse_saveEdit r i s =
     (let s1 = s\<lparr>requests := requests s @ [PUT_edit i (editText s)]\<rparr>
      in case r of
           NetworkError \<Rightarrow> Uncaught FetchFailed s1
         | Response ok body \<Rightarrow> Done (s1\<lparr>editingId := None, editText := []\<rparr>))"

section \<open>The WebSocket page\<close>

text \<open>
  \<^verbatim>\<open>loadMessages\<close>: as above, and every truthy id of the snapshot is added to
  \<^verbatim>\<open>messageIds\<close>.
\<close>

definition add_ids :: "Message list \<Rightarrow> string set \<Rightarrow> string set" where
  "add_ids msgs ids =
     fold (\<lambda>msg acc. case msg_id msg of
                        None \<Rightarrow> acc
                      | Some i \<Rightarrow> if i = [] then acc else insert i acc) msgs ids"

definition ws_loadMessages :: "fetch_result \<Rightarrow> ws_page_state \<Rightarrow> ws_page_state" where
  "ws_loadMessages r s =
     (let s1 = s\<lparr>requests := requests s @ [GET_messages]\<rparr> in
      case r of
        NetworkError \<Rightarrow> s1\<lparr>console := console s1 @ [Error ''Failed to load messages:'']\<rparr>
      | Response ok body \<Rightarrow>
          (case body of
             None \<Rightarrow> s1\<lparr>console := console s1 @ [Error ''Failed to load messages:'']\<rparr>
           | Some msgs \<Rightarrow> s1\<lparr>messages := msgs, messageIds := add_ids msgs (messageIds s1)\<rparr>))"

text \<open>
  \<^verbatim>\<open>handleNewMessage\<close>: the updater reads and extends the \<^verbatim>\<open>messageIds\<close> ref; it is
  run once per event, in delivery order.
\<close>

definition ws_handleNewMessage :: "Message \<Rightarrow> ws_page_state \<Rightarrow> ws_page_state" where
  "ws_handleNewMessage msg s =
     (let prev = messages s in
      case msg_id msg of
        None \<Rightarrow> s\<lparr>messages := prev @ [msg]\<rparr>
      | Some i \<Rightarrow>
          if i = [] then s\<lparr>messages := prev @ [msg]\<rparr>
          else if i \<in> messageIds s then
            s\<lparr>console := console s @ [Log ''Duplicate message detected, skipping:'']\<rparr>
          else
            let s1 = s\<lparr>messageIds := insert i (messageIds s)\<rparr>;
                existingIndex = findIndex (\<lambda>m. msg_id m = msg_id msg) prev
            in if existingIndex \<noteq> -1 then s1\<lparr>messages := prev[nat existingIndex := msg]\<rparr>
               else s1\<lparr>messages := prev @ [msg]\<rparr>)"

text \<open>
  \<^verbatim>\<open>ws.current.onmessage\<close>: the parse and the call are inside \<^verbatim>\<open>try\<close>; a payload that
  does not decode is logged and nothing else happens.
\<close>

definition ws_onmessage ::
  "(string \<Rightarrow> Message option) \<Rightarrow> string \<Rightarrow> ws_page_state \<Rightarrow> ws_page_state outcome" where
  "ws_onmessage JSON_parse data s =
     (case JSON_parse data of
        None \<Rightarrow> Done (s\<lparr>console := console s @ [Error ''Failed to parse WebSocket message:'']\<rparr>)
      | Some msg \<Rightarrow>
          Done (ws_handleNewMessage msg (s\<lparr>console := console s @ [Log ''WebSocket received:'']\<rparr>)))"

text \<open>
  \<^verbatim>\<open>sendMessage\<close>: the trimmed text and author are posted; the text is cleared when the
  response is \<^verbatim>\<open>ok\<close>, and both failures are logged. \<^verbatim>\<open>saveEdit\<close> is the same function as
  on the other page.
\<close>

definition ws_sendMessage :: "fetch_result \<Rightarrow> ws_page_state \<Rightarrow> ws_page_state outcome" where
  "ws_sendMessage r s =
     (if trim (text_input s) = [] \<or> trim (author_input s) = [] then Done s
      else
        let messageText = trim (text_input s);
            messageAuthor = trim (author_input s);
            s1 = s\<lparr>requests := requests s @ [POST_publish messageText messageAuthor]\<rparr>
        in case r of
             NetworkError \<Rightarrow> Done (s1\<lparr>console := console s1 @ [Error ''Failed to send message:'']\<rparr>)
           | Response ok body \<Rightarrow>
               if ok then
                 Done (s1\<lparr>text_input := [],
                          console := console s1 @ [Log ''Message sent successfully via HTTP POST'']\<rparr>)
               else Done (s1\<lparr>console := console s1 @ [Error ''Failed to send message:'']\<rparr>))"

definition ws_saveEdit :: "fetch_result \<Rightarrow> string \<Rightarrow> ws_page_state \<Rightarrow> ws_page_state outcome" where
  "ws_saveEdit r i s =
     (let s1 = s\<lparr>requests := requests s @ [PUT_edit i (editText s)]\<rparr>
      in case r of
           NetworkError \<Rightarrow> Uncaught FetchFailed s1
         | Response ok body \<Rightarrow> Done (s1\<lparr>editingId := None, editText := []\<rparr>))"

section \<open>Notions used in the statements\<close>

text \<open>
  The ids that the entries of a collection carry, in the order of the entries, and those
  among them that \<^verbatim>\<open>if (msg._id)\<close> accepts.
\<close>

definition present_ids :: "Message list \<Rightarrow> string list" where
  "present_ids ms = map the (filter (\<lambda>x. x \<noteq> None) (map msg_id ms))"

definition truthy_ids :: "Message list \<Rightarrow> string list" where
  "truthy_ids ms = filter (\<lambda>i. i \<noteq> []) (present_ids ms)"

text \<open>
  What \<^verbatim>\<open>findIndex\<close> followed by the assignment at the index found, or by the append when
  nothing is found, does to an array: the first element that satisfies \<open>P\<close> is replaced,
  and a list without such an element is extended.
\<close>

fun upsert :: "('a \<Rightarrow> bool) \<Rightarrow> 'a \<Rightarrow> 'a list \<Rightarrow> 'a list" where
  "upsert P y [] = [y]"
| "upsert P y (x # xs) = (if P x then y # xs else x # upsert P y xs)"

text \<open>
  The frames of the socket are handled one after the other; \<^verbatim>\<open>ws.current.onmessage\<close>
  catches what it throws, so every frame leaves a page state behind.
\<close>

definition ws_deliver ::
  "(string \<Rightarrow> Message option) \<Rightarrow> string list \<Rightarrow> ws_page_state \<Rightarrow> ws_page_state" where
  "ws_deliver JSON_parse frames s =
     fold (\<lambda>data s'. state_of (ws_onmessage JSON_parse data s')) frames s"

text \<open>
  The states of the WebSocket page: it is mounted with empty state, and then the
  snapshot arrives, frames arrive, the user sends and edits, and the setters of the
  inputs and of the connection flag run, in any order.
\<close>

inductive ws_reachable :: "ws_page_state \<Rightarrow> bool" where
  mounted: "ws_reachable ws_init"
| loadMessages: "ws_reachable s \<Longrightarrow> ws_reachable (ws_loadMessages r s)"
| onmessage: "ws_reachable s \<Longrightarrow> ws_reachable (state_of (ws_onmessage JSON_parse data s))"
| sendMessage: "ws_reachable s \<Longrightarrow> ws_reachable (state_of (ws_sendMessage r s))"
| saveEdit: "ws_reachable s \<Longrightarrow> ws_reachable (state_of (ws_saveEdit r i s))"
| setText: "ws_reachable s \<Longrightarrow> ws_reachable (s\<lparr>text_input := t\<rparr>)"
| setAuthor: "ws_reachable s \<Longrightarrow> ws_reachable (s\<lparr>author_input := a\<rparr>)"
| setEditingId: "ws_reachable s \<Longrightarrow> ws_reachable (s\<lparr>editingId := e\<rparr>)"
| setEditText: "ws_reachable s \<Longrightarrow> ws_reachable (s\<lparr>editText := t\<rparr>)"
| setIsConnected: "ws_reachable s \<Longrightarrow> ws_reachable (s\<lparr>isConnected := c\<rparr>)"

section \<open>findIndex and the replace-or-append step\<close>

lemma findIndex_from_eq:
  "findIndex_from P xs k =
     (if \<exists>x\<in>set xs. P x then k + int (length (takeWhile (\<lambda>x. \<not> P x) xs)) else -1)"
  by (induction xs arbitrary: k) auto

lemma findIndex_eq:
  "findIndex P xs =
     (if \<exists>x\<in>set xs. P x then int (length (takeWhile (\<lambda>x. \<not> P x) xs)) else -1)"
  by (simp add: findIndex_def findIndex_from_eq)

lemma findIndex_none: "(findIndex P xs = -1) = (\<forall>x\<in>set xs. \<not> P x)"
  by (simp add: findIndex_eq)

lemma update_first_upsert:
  "\<exists>x\<in>set xs. P x \<Longrightarrow> xs[length (takeWhile (\<lambda>x. \<not> P x) xs) := y] = upsert P y xs"
  by (induction xs) auto

lemma upsert_miss: "\<forall>x\<in>set xs. \<not> P x \<Longrightarrow> upsert P y xs = xs @ [y]"
  by (induction xs) auto

lemma findIndex_hit_upsert:
  "findIndex P xs \<noteq> -1 \<Longrightarrow> xs[nat (findIndex P xs) := y] = upsert P y xs"
  by (auto simp: findIndex_eq update_first_upsert split: if_splits)

lemma findIndex_miss_upsert: "findIndex P xs = -1 \<Longrightarrow> xs @ [y] = upsert P y xs"
  by (simp add: findIndex_none upsert_miss)

lemma upsert_hit:
  "\<forall>a\<in>set as. \<not> P a \<Longrightarrow> P b \<Longrightarrow> upsert P y (as @ b # cs) = as @ y # cs"
  by (induction as) auto

lemma length_upsert:
  "length (upsert P y xs) = (if \<exists>x\<in>set xs. P x then length xs else Suc (length xs))"
  by (induction xs) auto

lemma upsert_idem: "P y \<Longrightarrow> upsert P y (upsert P y xs) = upsert P y xs"
  by (induction xs) auto

lemma map_upsert:
  "map f (upsert (\<lambda>x. f x = f y) y xs) =
     (if f y \<in> f ` set xs then map f xs else map f xs @ [f y])"
  by (induction xs) auto

section \<open>What handleNewMessage does to the collection and to the tracker\<close>

lemma sse_messages:
  "messages (sse_handleNewMessage msg s) = upsert (\<lambda>m. msg_id m = msg_id msg) msg (messages s)"
  by (simp add: sse_handleNewMessage_def Let_def findIndex_hit_upsert findIndex_miss_upsert)

lemma ws_messages:
  "messages (ws_handleNewMessage msg s) =
     (if falsy (msg_id msg) then messages s @ [msg]
      else if the (msg_id msg) \<in> messageIds s then messages s
      else upsert (\<lambda>m. msg_id m = msg_id msg) msg (messages s))"
  by (auto simp: ws_handleNewMessage_def Let_def findIndex_hit_upsert findIndex_miss_upsert
      split: option.splits)

lemma ws_messageIds:
  "messageIds (ws_handleNewMessage msg s) =
     (if falsy (msg_id msg) then messageIds s else insert (the (msg_id msg)) (messageIds s))"
  by (auto simp: ws_handleNewMessage_def Let_def split: option.splits)

lemma sse_handleNewMessage_eq:
  "sse_handleNewMessage msg s =
     s\<lparr>messages := upsert (\<lambda>m. msg_id m = msg_id msg) msg (messages s)\<rparr>"
  by (simp add: sse_handleNewMessage_def Let_def findIndex_hit_upsert findIndex_miss_upsert)

section \<open>What the other handlers leave alone\<close>

lemma ws_onmessage_messages:
  "messages (state_of (ws_onmessage JSON_parse data s)) =
     (case JSON_parse data of None \<Rightarrow> messages s
      | Some msg \<Rightarrow> messages (ws_handleNewMessage msg s))"
  by (simp add: ws_onmessage_def ws_messages split: option.splits)

lemma ws_onmessage_messageIds:
  "messageIds (state_of (ws_onmessage JSON_parse data s)) =
     (case JSON_parse data of None \<Rightarrow> messageIds s
      | Some msg \<Rightarrow> messageIds (ws_handleNewMessage msg s))"
  by (simp add: ws_onmessage_def ws_messageIds split: option.splits)

lemma ws_sendMessage_messages: "messages (state_of (ws_sendMessage r s)) = messages s"
  by (simp add: ws_sendMessage_def Let_def split: fetch_result.splits)

lemma ws_sendMessage_messageIds: "messageIds (state_of (ws_sendMessage r s)) = messageIds s"
  by (simp add: ws_sendMessage_def Let_def split: fetch_result.splits)

lemma ws_saveEdit_messages: "messages (state_of (ws_saveEdit r i s)) = messages s"
  by (simp add: ws_saveEdit_def Let_def split: fetch_result.splits)

lemma ws_saveEdit_messageIds: "messageIds (state_of (ws_saveEdit r i s)) = messageIds s"
  by (simp add: ws_saveEdit_def Let_def split: fetch_result.splits)

lemma sse_sendMessage_messages: "messages (state_of (sse_sendMessage r s)) = messages s"
  by (simp add: sse_sendMessage_def Let_def split: fetch_result.splits)

lemma sse_saveEdit_messages: "messages (state_of (sse_saveEdit r i s)) = messages s"
  by (simp add: sse_saveEdit_def Let_def split: fetch_result.splits)

section \<open>The ids of a collection\<close>

lemma present_ids_append: "present_ids (xs @ ys) = present_ids xs @ present_ids ys"
  by (simp add: present_ids_def)

lemma truthy_ids_append: "truthy_ids (xs @ ys) = truthy_ids xs @ truthy_ids ys"
  by (simp add: truthy_ids_def present_ids_append)

lemma present_ids_single:
  "present_ids [m] = (case msg_id m of None \<Rightarrow> [] | Some i \<Rightarrow> [i])"
  by (simp add: present_ids_def split: option.splits)

lemma truthy_ids_single:
  "truthy_ids [m] = (case msg_id m of None \<Rightarrow> [] | Some i \<Rightarrow> if i = [] then [] else [i])"
  by (simp add: truthy_ids_def present_ids_single split: option.splits)

lemma set_present_ids: "set (present_ids xs) = {i. Some i \<in> msg_id ` set xs}"
  by (induction xs) (auto simp: present_ids_def)

lemma set_truthy_ids: "set (truthy_ids xs) = {i. i \<noteq> [] \<and> Some i \<in> msg_id ` set xs}"
  by (auto simp: truthy_ids_def set_present_ids)

text \<open>
  \<open>distinct (present_ids ms)\<close> says that no id is carried by two entries of \<open>ms\<close>.
\<close>

lemma distinct_present_ids_iff:
  "distinct (present_ids ms) = (\<forall>i. length (filter (\<lambda>m. msg_id m = Some i) ms) \<le> 1)"
proof (induction ms)
  case Nil
  show ?case by (simp add: present_ids_def)
next
  case (Cons m ms)
  have cons: "present_ids (m # ms) = present_ids [m] @ present_ids ms"
    using present_ids_append [of "[m]" ms] by simp
  have mem: "\<And>i. (i \<in> set (present_ids ms)) = (filter (\<lambda>m. msg_id m = Some i) ms \<noteq> [])"
    by (force simp: set_present_ids filter_empty_conv image_iff)
  show ?case
  proof (cases "msg_id m")
    case None
    with Cons cons show ?thesis by (simp add: present_ids_single)
  next
    case (Some j)
    show ?thesis
    proof
      assume d: "distinct (present_ids (m # ms))"
      with cons Some have "j \<notin> set (present_ids ms)" and "distinct (present_ids ms)"
        by (simp_all add: present_ids_single)
      with Cons mem Some show "\<forall>i. length (filter (\<lambda>m. msg_id m = Some i) (m # ms)) \<le> 1"
        by auto
    next
      assume a: "\<forall>i. length (filter (\<lambda>m. msg_id m = Some i) (m # ms)) \<le> 1"
      then have "length (filter (\<lambda>m. msg_id m = Some j) (m # ms)) \<le> 1" by blast
      with Some have "filter (\<lambda>m. msg_id m = Some j) ms = []" by simp
      with mem have j: "j \<notin> set (present_ids ms)" by simp
      have "\<forall>i. length (filter (\<lambda>m. msg_id m = Some i) ms) \<le> 1"
      proof
        fix i
        from a have "length (filter (\<lambda>m. msg_id m = Some i) (m # ms)) \<le> 1" by blast
        then show "length (filter (\<lambda>m. msg_id m = Some i) ms) \<le> 1"
          by (simp split: if_splits)
      qed
      with Cons have "distinct (present_ids ms)" by simp
      with j cons Some show "distinct (present_ids (m # ms))"
        by (simp add: present_ids_single)
    qed
  qed
qed

lemma present_ids_upsert:
  "present_ids (upsert (\<lambda>x. msg_id x = msg_id m) m xs) =
     (if msg_id m \<in> msg_id ` set xs then present_ids xs else present_ids (xs @ [m]))"
  by (simp add: present_ids_def map_upsert [of msg_id m xs])

lemma truthy_ids_upsert:
  "truthy_ids (upsert (\<lambda>x. msg_id x = msg_id m) m xs) =
     (if msg_id m \<in> msg_id ` set xs then truthy_ids xs else truthy_ids (xs @ [m]))"
  by (simp add: truthy_ids_def present_ids_upsert)

lemma set_truthy_ids_upsert:
  "set (truthy_ids (upsert (\<lambda>x. msg_id x = msg_id m) m xs))
     \<subseteq> set (truthy_ids xs) \<union> set (truthy_ids [m])"
  by (simp add: truthy_ids_upsert truthy_ids_append)

lemma upsert_new:
  "msg_id m \<notin> msg_id ` set xs \<Longrightarrow> upsert (\<lambda>x. msg_id x = msg_id m) m xs = xs @ [m]"
  by (rule upsert_miss) (auto simp: image_iff)

lemma truthy_ids_falsy: "falsy (msg_id m) \<Longrightarrow> truthy_ids (xs @ [m]) = truthy_ids xs"
  by (cases "msg_id m") (simp_all add: truthy_ids_append truthy_ids_single)

lemma distinct_present_ids_upsert:
  assumes "distinct (present_ids xs)"
  shows "distinct (present_ids (upsert (\<lambda>x. msg_id x = msg_id m) m xs))"
proof (cases "msg_id m \<in> msg_id ` set xs")
  case True
  with assms show ?thesis by (simp add: present_ids_upsert)
next
  case False
  then have "set (present_ids xs) \<inter> set (present_ids [m]) = {}"
    by (auto simp: set_present_ids present_ids_single split: option.splits)
  with assms False show ?thesis
    by (simp add: present_ids_upsert present_ids_append present_ids_single split: option.splits)
qed

lemma distinct_truthy_ids_upsert:
  assumes "distinct (truthy_ids xs)"
  shows "distinct (truthy_ids (upsert (\<lambda>x. msg_id x = msg_id m) m xs))"
proof (cases "msg_id m \<in> msg_id ` set xs")
  case True
  with assms show ?thesis by (simp add: truthy_ids_upsert)
next
  case False
  then have "set (truthy_ids xs) \<inter> set (truthy_ids [m]) = {}"
    by (auto simp: set_truthy_ids truthy_ids_single split: option.splits)
  with assms False show ?thesis
    by (simp add: truthy_ids_upsert truthy_ids_append truthy_ids_single split: option.splits)
qed

lemma add_ids_eq: "add_ids msgs T = T \<union> set (truthy_ids msgs)"
proof (induction msgs arbitrary: T)
  case Nil
  show ?case by (simp add: add_ids_def truthy_ids_def present_ids_def)
next
  case (Cons m ms)
  have "add_ids (m # ms) T =
          add_ids ms (case msg_id m of None \<Rightarrow> T | Some i \<Rightarrow> if i = [] then T else insert i T)"
    by (simp add: add_ids_def)
  moreover have "truthy_ids (m # ms) = truthy_ids [m] @ truthy_ids ms"
    using truthy_ids_append [of "[m]" ms] by simp
  ultimately show ?case
    using Cons by (auto simp: truthy_ids_single split: option.splits)
qed

lemma sse_loadMessages_messages:
  "messages (sse_loadMessages (Response ok (Some snap)) s) = snap"
  by (simp add: sse_loadMessages_def)

lemma ws_loadMessages_messages:
  "messages (ws_loadMessages (Response ok (Some snap)) s) = snap"
  by (simp add: ws_loadMessages_def)

lemma ws_loadMessages_messageIds:
  "messageIds (ws_loadMessages (Response ok (Some snap)) w) = messageIds w \<union> set (truthy_ids snap)"
  by (simp add: ws_loadMessages_def add_ids_eq)

section \<open>Update in place\<close>

text \<open>
  On the server-sent-events page an event whose id is carried by an entry replaces the
  first such entry where it stands. On the WebSocket page the same holds only for an id
  that is not in \<^verbatim>\<open>messageIds\<close>.
\<close>

lemma sse_handleNewMessage_update:
  assumes "messages s = as @ b # cs" and "\<forall>a\<in>set as. msg_id a \<noteq> msg_id msg"
    and "msg_id b = msg_id msg"
  shows "messages (sse_handleNewMessage msg s) = as @ msg # cs"
  using assms by (simp add: sse_messages upsert_hit)

lemma ws_handleNewMessage_update:
  assumes "messages s = as @ b # cs" and "\<forall>a\<in>set as. msg_id a \<noteq> msg_id msg"
    and "msg_id b = msg_id msg" and "msg_id msg = Some i" and "i \<noteq> []"
    and "i \<notin> messageIds s"
  shows "messages (ws_handleNewMessage msg s) = as @ msg # cs"
  using assms by (simp add: ws_messages upsert_hit)

text \<open>
  C1. An event whose id is carried by an entry of the collection replaces that entry in
  place. The server-sent-events page does so (\<open>sse_handleNewMessage_update\<close>). The
  WebSocket page does not: after the snapshot \<open>[A(id=1), B(id=2), C(id=3)]\<close> has been
  loaded, every id of the snapshot is in \<^verbatim>\<open>messageIds\<close>, and the event
  \<open>{id: 2, text: edited}\<close> leaves the collection as it was.
\<close>

theorem ws_tracked_id_not_updated:
  "messages
     (ws_handleNewMessage
        \<lparr>msg_id = Some ''2'', msg_author = ''Bo'', msg_text = ''edited'', msg_timestamp = None\<rparr>
        (ws_loadMessages
           (Response True (Some
              [\<lparr>msg_id = Some ''1'', msg_author = ''Al'', msg_text = ''a'', msg_timestamp = None\<rparr>,
               \<lparr>msg_id = Some ''2'', msg_author = ''Bo'', msg_text = ''b'', msg_timestamp = None\<rparr>,
               \<lparr>msg_id = Some ''3'', msg_author = ''Cy'', msg_text = ''c'', msg_timestamp = None\<rparr>]))
           ws_init))
   = [\<lparr>msg_id = Some ''1'', msg_author = ''Al'', msg_text = ''a'', msg_timestamp = None\<rparr>,
      \<lparr>msg_id = Some ''2'', msg_author = ''Bo'', msg_text = ''b'', msg_timestamp = None\<rparr>,
      \<lparr>msg_id = Some ''3'', msg_author = ''Cy'', msg_text = ''c'', msg_timestamp = None\<rparr>]"
  by (simp add: ws_handleNewMessage_def ws_loadMessages_def ws_init_def add_ids_def)

section \<open>Events without an id\<close>

lemma ws_handleNewMessage_no_id:
  "falsy (msg_id msg) \<Longrightarrow> messages (ws_handleNewMessage msg s) = messages s @ [msg]"
  by (simp add: ws_messages)

lemma sse_handleNewMessage_no_id_merged:
  assumes "msg_id msg = None" and "None \<in> msg_id ` set (messages s)"
  shows "length (messages (sse_handleNewMessage msg s)) = length (messages s)"
proof -
  from assms(2) obtain x where "x \<in> set (messages s)" and "msg_id x = None"
    by (metis imageE)
  with assms(1) have "\<exists>x\<in>set (messages s). msg_id x = msg_id msg"
    by auto
  then show ?thesis by (simp add: sse_messages length_upsert)
qed

text \<open>
  C2. An event without an id is appended, and two such events give two entries. The
  WebSocket page does so (\<open>ws_handleNewMessage_no_id\<close>). On the server-sent-events page
  an event without an id replaces the first entry without an id
  (\<open>sse_handleNewMessage_no_id_merged\<close>): of two such events on the empty collection, one
  entry is left.
\<close>

theorem sse_no_id_events_merged:
  "messages
     (sse_handleNewMessage
        \<lparr>msg_id = None, msg_author = ''Bo'', msg_text = ''second'', msg_timestamp = None\<rparr>
        (sse_handleNewMessage
           \<lparr>msg_id = None, msg_author = ''Al'', msg_text = ''first'', msg_timestamp = None\<rparr>
           sse_init))
   = [\<lparr>msg_id = None, msg_author = ''Bo'', msg_text = ''second'', msg_timestamp = None\<rparr>]"
  by (simp add: sse_handleNewMessage_def sse_init_def findIndex_def)


section \<open>Applying an event twice\<close>

text \<open>
  On the WebSocket page an id that is the empty string is falsy, the event is appended
  each time it is applied, and the second application adds a second entry.
\<close>

theorem ws_empty_id_applied_twice:
  "messages
     (ws_handleNewMessage \<lparr>msg_id = Some [], msg_author = ''Al'', msg_text = ''hi'', msg_timestamp = None\<rparr>
        (ws_handleNewMessage \<lparr>msg_id = Some [], msg_author = ''Al'', msg_text = ''hi'', msg_timestamp = None\<rparr>
           ws_init))
   \<noteq> messages
       (ws_handleNewMessage \<lparr>msg_id = Some [], msg_author = ''Al'', msg_text = ''hi'', msg_timestamp = None\<rparr>
          ws_init)"
  by (simp add: ws_handleNewMessage_def ws_init_def)

text \<open>
  C3. Applying a message with a present id twice gives the collection that applying it
  once gives. On the server-sent-events page the whole page state is the same; on the
  WebSocket page the collection and the tracker are the same (the second application
  logs the duplicate), for an id that is not the empty string.
\<close>

theorem handleNewMessage_twice:
  assumes "msg_id m = Some i"
  shows "sse_handleNewMessage m (sse_handleNewMessage m s) = sse_handleNewMessage m s
       \<and> (i \<noteq> [] \<longrightarrow>
            messages (ws_handleNewMessage m (ws_handleNewMessage m w))
              = messages (ws_handleNewMessage m w)
          \<and> messageIds (ws_handleNewMessage m (ws_handleNewMessage m w))
              = messageIds (ws_handleNewMessage m w))"
proof -
  have "sse_handleNewMessage m (sse_handleNewMessage m s) = sse_handleNewMessage m s"
    by (simp add: sse_handleNewMessage_eq upsert_idem)
  moreover have "i \<noteq> [] \<Longrightarrow> messages (ws_handleNewMessage m (ws_handleNewMessage m w))
              = messages (ws_handleNewMessage m w)"
    using assms by (simp add: ws_messages ws_messageIds)
  moreover have "i \<noteq> [] \<Longrightarrow> messageIds (ws_handleNewMessage m (ws_handleNewMessage m w))
              = messageIds (ws_handleNewMessage m w)"
    using assms by (simp add: ws_messageIds)
  ultimately show ?thesis by blast
qed

theorem handleNewMessage_twice_witness:
  "sse_handleNewMessage \<lparr>msg_id = Some ''x'', msg_author = ''Al'', msg_text = ''first'', msg_timestamp = None\<rparr>
     (sse_handleNewMessage \<lparr>msg_id = Some ''x'', msg_author = ''Al'', msg_text = ''first'', msg_timestamp = None\<rparr> sse_init)
   = sse_handleNewMessage \<lparr>msg_id = Some ''x'', msg_author = ''Al'', msg_text = ''first'', msg_timestamp = None\<rparr> sse_init
   \<and> messages
       (ws_handleNewMessage \<lparr>msg_id = Some ''x'', msg_author = ''Al'', msg_text = ''first'', msg_timestamp = None\<rparr>
          (ws_handleNewMessage \<lparr>msg_id = Some ''x'', msg_author = ''Al'', msg_text = ''first'', msg_timestamp = None\<rparr> ws_init))
     = [\<lparr>msg_id = Some ''x'', msg_author = ''Al'', msg_text = ''first'', msg_timestamp = None\<rparr>]"
  using handleNewMessage_twice
    [of "\<lparr>msg_id = Some ''x'', msg_author = ''Al'', msg_text = ''first'', msg_timestamp = None\<rparr>"
        "''x''" sse_init ws_init]
  by (simp add: ws_handleNewMessage_def ws_init_def findIndex_def)

section \<open>At most one entry per id\<close>

lemma sse_handleNewMessage_distinct:
  "distinct (present_ids (messages s)) \<Longrightarrow>
   distinct (present_ids (messages (sse_handleNewMessage m s)))"
  by (simp add: sse_messages distinct_present_ids_upsert)

lemma ws_handleNewMessage_distinct:
  "distinct (truthy_ids (messages s)) \<Longrightarrow>
   distinct (truthy_ids (messages (ws_handleNewMessage m s)))"
  by (simp add: ws_messages distinct_truthy_ids_upsert truthy_ids_falsy)

lemma sse_fold_distinct:
  "distinct (present_ids (messages s)) \<Longrightarrow>
   distinct (present_ids (messages (fold sse_handleNewMessage evs s)))"
  by (induction evs arbitrary: s) (simp_all add: sse_handleNewMessage_distinct)

lemma ws_fold_distinct:
  "distinct (truthy_ids (messages s)) \<Longrightarrow>
   distinct (truthy_ids (messages (fold ws_handleNewMessage evs s)))"
  by (induction evs arbitrary: s) (simp_all add: ws_handleNewMessage_distinct)

text \<open>
  On the WebSocket page two events whose id is the empty string are both appended: the
  collection then holds two entries with the same present id.
\<close>

theorem ws_empty_id_duplicated:
  "distinct (present_ids
      [\<lparr>msg_id = Some ''1'', msg_author = ''Al'', msg_text = ''hi'', msg_timestamp = None\<rparr>])
   \<and> \<not> distinct (present_ids (messages
     (fold ws_handleNewMessage
        [\<lparr>msg_id = Some [], msg_author = ''Bo'', msg_text = ''x'', msg_timestamp = None\<rparr>,
         \<lparr>msg_id = Some [], msg_author = ''Cy'', msg_text = ''y'', msg_timestamp = None\<rparr>]
        (ws_loadMessages
           (Response True (Some
              [\<lparr>msg_id = Some ''1'', msg_author = ''Al'', msg_text = ''hi'', msg_timestamp = None\<rparr>]))
           ws_init))))"
  by (simp add: present_ids_def ws_handleNewMessage_def ws_loadMessages_def ws_init_def)

text \<open>
  C4. After a snapshot in which no id is carried by two entries, and after any sequence
  of live events, no id is carried by two entries of the collection: every present id on
  the server-sent-events page, every non-empty id on the WebSocket page. Each single
  application keeps the property (\<open>sse_handleNewMessage_distinct\<close>,
  \<open>ws_handleNewMessage_distinct\<close>).
\<close>

theorem one_entry_per_id:
  assumes "distinct (present_ids snap)"
  shows "distinct (present_ids (messages
           (fold sse_handleNewMessage evs (sse_loadMessages (Response ok (Some snap)) s))))
       \<and> distinct (truthy_ids (messages
           (fold ws_handleNewMessage evs (ws_loadMessages (Response ok (Some snap)) w))))"
proof -
  have "distinct (truthy_ids snap)"
    using assms by (simp add: truthy_ids_def)
  then show ?thesis
    using assms
    by (simp add: sse_fold_distinct ws_fold_distinct sse_loadMessages_messages
        ws_loadMessages_messages)
qed

theorem one_entry_per_id_witness:
  "present_ids (messages
     (fold sse_handleNewMessage
        [\<lparr>msg_id = Some ''1'', msg_author = ''Al'', msg_text = ''again'', msg_timestamp = None\<rparr>]
        (sse_loadMessages
           (Response True (Some
              [\<lparr>msg_id = Some ''1'', msg_author = ''Al'', msg_text = ''hi'', msg_timestamp = None\<rparr>]))
           sse_init))) = [''1'']
   \<and> distinct (truthy_ids (messages
     (fold ws_handleNewMessage
        [\<lparr>msg_id = Some ''1'', msg_author = ''Al'', msg_text = ''again'', msg_timestamp = None\<rparr>]
        (ws_loadMessages
           (Response True (Some
              [\<lparr>msg_id = Some ''1'', msg_author = ''Al'', msg_text = ''hi'', msg_timestamp = None\<rparr>]))
           ws_init))))"
  using one_entry_per_id
    [of "[\<lparr>msg_id = Some ''1'', msg_author = ''Al'', msg_text = ''hi'', msg_timestamp = None\<rparr>]"
        "[\<lparr>msg_id = Some ''1'', msg_author = ''Al'', msg_text = ''again'', msg_timestamp = None\<rparr>]"
        True sse_init ws_init]
  by (simp add: present_ids_def sse_handleNewMessage_def sse_loadMessages_def sse_init_def
      findIndex_def)

section \<open>The tracker of the WebSocket page\<close>

text \<open>
  The tracker never holds the empty string, and it holds every non-empty id of the
  collection; \<^verbatim>\<open>loadMessages\<close> and \<^verbatim>\<open>handleNewMessage\<close> keep both properties. Under
  the second one an event leaves the collection as it is or is appended to it: the
  assignment at \<^verbatim>\<open>existingIndex\<close> is never reached.
\<close>

lemma ws_init_tracker: "[] \<notin> messageIds ws_init"
  by (simp add: ws_init_def)

lemma ws_loadMessages_tracker:
  "[] \<notin> messageIds s \<Longrightarrow> [] \<notin> messageIds (ws_loadMessages r s)"
  by (auto simp: ws_loadMessages_def Let_def add_ids_eq set_truthy_ids
      split: fetch_result.splits option.splits)

lemma ws_handleNewMessage_tracker:
  "[] \<notin> messageIds s \<Longrightarrow> [] \<notin> messageIds (ws_handleNewMessage msg s)"
  by (cases "msg_id msg") (auto simp: ws_messageIds)

lemma ws_loadMessages_ids_tracked:
  "set (truthy_ids (messages s)) \<subseteq> messageIds s \<Longrightarrow>
   set (truthy_ids (messages (ws_loadMessages r s))) \<subseteq> messageIds (ws_loadMessages r s)"
  by (auto simp: ws_loadMessages_def Let_def add_ids_eq split: fetch_result.splits option.splits)

lemma ws_handleNewMessage_ids_tracked:
  assumes "set (truthy_ids (messages s)) \<subseteq> messageIds s"
  shows "set (truthy_ids (messages (ws_handleNewMessage msg s)))
           \<subseteq> messageIds (ws_handleNewMessage msg s)"
proof (cases "falsy (msg_id msg)")
  case True
  with assms show ?thesis by (simp add: ws_messages ws_messageIds truthy_ids_falsy)
next
  case False
  then obtain i where i: "msg_id msg = Some i" "i \<noteq> []" by (cases "msg_id msg") auto
  then have "truthy_ids [msg] = [i]" by (simp add: truthy_ids_single)
  with set_truthy_ids_upsert [of msg "messages s"]
  have "set (truthy_ids (upsert (\<lambda>m. msg_id m = msg_id msg) msg (messages s)))
          \<subseteq> insert i (set (truthy_ids (messages s)))"
    by auto
  with assms False i show ?thesis by (auto simp: ws_messages ws_messageIds)
qed

lemma ws_update_branch_unreachable:
  assumes "set (truthy_ids (messages s)) \<subseteq> messageIds s"
  shows "messages (ws_handleNewMessage msg s) = messages s
       \<or> messages (ws_handleNewMessage msg s) = messages s @ [msg]"
proof (cases "falsy (msg_id msg) \<or> the (msg_id msg) \<in> messageIds s")
  case True
  then show ?thesis by (auto simp: ws_messages)
next
  case False
  then obtain i where i: "msg_id msg = Some i" "i \<noteq> []" "i \<notin> messageIds s"
    by (cases "msg_id msg") auto
  with assms have "i \<notin> set (truthy_ids (messages s))" by blast
  with i have "\<forall>x\<in>set (messages s). msg_id x \<noteq> msg_id msg"
    by (auto simp: set_truthy_ids image_iff)
  with i show ?thesis by (simp add: ws_messages upsert_miss)
qed

text \<open>
  Every state the page reaches has both properties, so in every such state
  \<^verbatim>\<open>handleNewMessage\<close> leaves the collection as it is or appends to it.
\<close>

lemma ws_reachable_tracker:
  "ws_reachable s \<Longrightarrow> [] \<notin> messageIds s \<and> set (truthy_ids (messages s)) \<subseteq> messageIds s"
proof (induction rule: ws_reachable.induct)
  case mounted
  show ?case by (simp add: ws_init_def truthy_ids_def present_ids_def)
next
  case (loadMessages s r)
  then show ?case by (simp add: ws_loadMessages_tracker ws_loadMessages_ids_tracked)
next
  case (onmessage s JSON_parse data)
  then show ?case
    by (simp add: ws_onmessage_messages ws_onmessage_messageIds ws_handleNewMessage_tracker
        ws_handleNewMessage_ids_tracked split: option.splits)
next
  case (sendMessage s r)
  then show ?case by (simp add: ws_sendMessage_messages ws_sendMessage_messageIds)
next
  case (saveEdit s r i)
  then show ?case by (simp add: ws_saveEdit_messages ws_saveEdit_messageIds)
qed simp_all

lemma ws_reachable_no_replace:
  assumes "ws_reachable s" and "msg_id msg = Some i" and "i \<noteq> []"
    and "Some i \<in> msg_id ` set (messages s)"
  shows "messages (ws_handleNewMessage msg s) = messages s"
proof -
  from assms(3,4) have "i \<in> set (truthy_ids (messages s))"
    by (simp add: set_truthy_ids)
  with assms(1) have "i \<in> messageIds s"
    using ws_reachable_tracker [of s] by blast
  with assms(2,3) show ?thesis by (simp add: ws_messages)
qed

lemma ws_reachable_no_update:
  "ws_reachable s \<Longrightarrow>
   messages (ws_handleNewMessage msg s) = messages s
   \<or> messages (ws_handleNewMessage msg s) = messages s @ [msg]"
  by (rule ws_update_branch_unreachable) (simp add: ws_reachable_tracker)



section \<open>Arrival order\<close>

lemma sse_fold_creates:
  "distinct (map msg_id es) \<Longrightarrow> msg_id ` set es \<inter> msg_id ` set (messages s) = {} \<Longrightarrow>
   messages (fold sse_handleNewMessage es s) = messages s @ es"
proof (induction es arbitrary: s)
  case Nil
  show ?case by simp
next
  case (Cons e es)
  from Cons.prems have d: "distinct (map msg_id es)" and fresh: "msg_id e \<notin> msg_id ` set es"
    and new: "msg_id e \<notin> msg_id ` set (messages s)"
    and rest: "msg_id ` set es \<inter> msg_id ` set (messages s) = {}"
    by simp_all
  from new have step: "messages (sse_handleNewMessage e s) = messages s @ [e]"
    by (simp add: sse_messages upsert_new)
  from fresh rest have "msg_id ` set es \<inter> msg_id ` set (messages s @ [e]) = {}"
    by simp
  with d step
  have "messages (fold sse_handleNewMessage es (sse_handleNewMessage e s)) = (messages s @ [e]) @ es"
    using Cons.IH [of "sse_handleNewMessage e s"] by simp
  then show ?case by simp
qed

lemma disjoint_image_step:
  "Some ` T' \<subseteq> insert x (Some ` T) \<Longrightarrow> x \<notin> f ` E \<Longrightarrow> f ` E \<inter> Some ` T = {}
   \<Longrightarrow> f ` E \<inter> Some ` T' = {}"
  by (auto simp: disjoint_iff subset_iff)

lemma ws_messageIds_image:
  "Some ` messageIds (ws_handleNewMessage e s) \<subseteq> insert (msg_id e) (Some ` messageIds s)"
proof (cases "msg_id e")
  case None
  then show ?thesis by (simp add: ws_messageIds subset_insertI)
next
  case (Some i)
  then show ?thesis by (simp add: ws_messageIds subset_insertI)
qed

lemma ws_handleNewMessage_create:
  assumes "msg_id e \<notin> msg_id ` set (messages s)" and "msg_id e \<notin> Some ` messageIds s"
  shows "messages (ws_handleNewMessage e s) = messages s @ [e]"
proof (cases "msg_id e")
  case None
  then show ?thesis by (simp add: ws_messages)
next
  case (Some i)
  with assms(2) have "i \<notin> messageIds s" by (simp add: image_iff)
  with Some assms(1) show ?thesis
    using upsert_new [of e "messages s"] by (simp add: ws_messages)
qed

lemma ws_fold_creates:
  "distinct (map msg_id es) \<Longrightarrow> msg_id ` set es \<inter> msg_id ` set (messages s) = {} \<Longrightarrow>
   msg_id ` set es \<inter> Some ` messageIds s = {} \<Longrightarrow>
   messages (fold ws_handleNewMessage es s) = messages s @ es"
proof (induction es arbitrary: s)
  case Nil
  show ?case by simp
next
  case (Cons e es)
  from Cons.prems(1) have d: "distinct (map msg_id es)" and fresh: "msg_id e \<notin> msg_id ` set es"
    by simp_all
  from Cons.prems(2) have new: "msg_id e \<notin> msg_id ` set (messages s)"
    and rest: "msg_id ` set es \<inter> msg_id ` set (messages s) = {}"
    by simp_all
  from Cons.prems(3) have untracked: "msg_id e \<notin> Some ` messageIds s"
    and rest_untracked: "msg_id ` set es \<inter> Some ` messageIds s = {}"
    by simp_all
  have step: "messages (ws_handleNewMessage e s) = messages s @ [e]"
    using new untracked by (rule ws_handleNewMessage_create)
  from fresh rest have a: "msg_id ` set es \<inter> msg_id ` set (messages (ws_handleNewMessage e s)) = {}"
    by (simp add: step)
  from ws_messageIds_image [of e s] fresh rest_untracked
  have b: "msg_id ` set es \<inter> Some ` messageIds (ws_handleNewMessage e s) = {}"
    by (rule disjoint_image_step)
  have "messages (fold ws_handleNewMessage es (ws_handleNewMessage e s))
          = messages (ws_handleNewMessage e s) @ es"
    using d a b by (rule Cons.IH)
  then show ?case by (simp add: step)
qed

lemma map_msg_id_present:
  "\<forall>e\<in>set es. msg_id e \<noteq> None \<Longrightarrow> map msg_id es = map Some (present_ids es)"
  by (induction es) (auto simp: present_ids_def)

lemma msg_id_image_present:
  assumes "\<forall>e\<in>set es. msg_id e \<noteq> None"
  shows "msg_id ` set es = Some ` set (present_ids es)"
  using arg_cong [OF map_msg_id_present [OF assms], of set] by simp

lemma present_disjoint:
  assumes "set (present_ids es) \<inter> set (present_ids snap) = {}"
  shows "Some ` set (present_ids es) \<inter> msg_id ` set snap = {}"
proof -
  have "\<And>i. i \<in> set (present_ids es) \<Longrightarrow> Some i \<notin> msg_id ` set snap"
  proof
    fix i assume "i \<in> set (present_ids es)" and "Some i \<in> msg_id ` set snap"
    then have "i \<in> set (present_ids es) \<inter> set (present_ids snap)"
      by (simp add: set_present_ids [of snap])
    with assms show False by simp
  qed
  then show ?thesis by (auto simp: disjoint_iff)
qed

lemma tracker_disjoint:
  "set (present_ids es) \<inter> set (present_ids snap) = {} \<Longrightarrow>
   set (present_ids es) \<inter> T = {} \<Longrightarrow>
   Some ` set (present_ids es) \<inter> Some ` (T \<union> set (truthy_ids snap)) = {}"
  by (auto simp: truthy_ids_def disjoint_iff)

text \<open>
  C8. Create events with present, pairwise distinct ids, none of them in the snapshot or
  in the tracker, are appended in delivery order after the entries of the snapshot, which
  keep the order the backend returned them in. Both pages.
\<close>

theorem creates_keep_delivery_order:
  assumes "\<forall>e\<in>set es. msg_id e \<noteq> None"
    and "distinct (present_ids es)"
    and "set (present_ids es) \<inter> set (present_ids snap) = {}"
    and "set (present_ids es) \<inter> messageIds w = {}"
  shows "messages (fold sse_handleNewMessage es (sse_loadMessages (Response ok (Some snap)) s))
           = snap @ es
       \<and> messages (fold ws_handleNewMessage es (ws_loadMessages (Response ok (Some snap)) w))
           = snap @ es"
proof -
  have d: "distinct (map msg_id es)"
    using assms(2) by (simp add: map_msg_id_present [OF assms(1)] distinct_map)
  have img: "msg_id ` set es = Some ` set (present_ids es)"
    using assms(1) by (rule msg_id_image_present)
  have new_sse:
    "msg_id ` set es \<inter> msg_id ` set (messages (sse_loadMessages (Response ok (Some snap)) s)) = {}"
    using present_disjoint [OF assms(3)] by (simp only: img sse_loadMessages_messages)
  have new_ws:
    "msg_id ` set es \<inter> msg_id ` set (messages (ws_loadMessages (Response ok (Some snap)) w)) = {}"
    using present_disjoint [OF assms(3)] by (simp only: img ws_loadMessages_messages)
  have untracked:
    "msg_id ` set es \<inter> Some ` messageIds (ws_loadMessages (Response ok (Some snap)) w) = {}"
    using tracker_disjoint [OF assms(3,4)] by (simp only: img ws_loadMessages_messageIds)
  have "messages (fold sse_handleNewMessage es (sse_loadMessages (Response ok (Some snap)) s))
          = messages (sse_loadMessages (Response ok (Some snap)) s) @ es"
    using d new_sse by (rule sse_fold_creates)
  moreover
  have "messages (fold ws_handleNewMessage es (ws_loadMessages (Response ok (Some snap)) w))
          = messages (ws_loadMessages (Response ok (Some snap)) w) @ es"
    using d new_ws untracked by (rule ws_fold_creates)
  ultimately show ?thesis
    by (simp only: sse_loadMessages_messages ws_loadMessages_messages simp_thms)
qed

theorem creates_keep_delivery_order_witness:
  "messages
     (fold sse_handleNewMessage
        [\<lparr>msg_id = Some ''e1'', msg_author = ''Al'', msg_text = ''one'', msg_timestamp = None\<rparr>,
         \<lparr>msg_id = Some ''e2'', msg_author = ''Bo'', msg_text = ''two'', msg_timestamp = None\<rparr>,
         \<lparr>msg_id = Some ''e3'', msg_author = ''Cy'', msg_text = ''three'', msg_timestamp = None\<rparr>]
        (sse_loadMessages
           (Response True (Some
              [\<lparr>msg_id = Some ''s1'', msg_author = ''Al'', msg_text = ''old'', msg_timestamp = None\<rparr>]))
           sse_init))
   = [\<lparr>msg_id = Some ''s1'', msg_author = ''Al'', msg_text = ''old'', msg_timestamp = None\<rparr>,
      \<lparr>msg_id = Some ''e1'', msg_author = ''Al'', msg_text = ''one'', msg_timestamp = None\<rparr>,
      \<lparr>msg_id = Some ''e2'', msg_author = ''Bo'', msg_text = ''two'', msg_timestamp = None\<rparr>,
      \<lparr>msg_id = Some ''e3'', msg_author = ''Cy'', msg_text = ''three'', msg_timestamp = None\<rparr>]
   \<and> messages
     (fold ws_handleNewMessage
        [\<lparr>msg_id = Some ''e1'', msg_author = ''Al'', msg_text = ''one'', msg_timestamp = None\<rparr>,
         \<lparr>msg_id = Some ''e2'', msg_author = ''Bo'', msg_text = ''two'', msg_timestamp = None\<rparr>,
         \<lparr>msg_id = Some ''e3'', msg_author = ''Cy'', msg_text = ''three'', msg_timestamp = None\<rparr>]
        (ws_loadMessages
           (Response True (Some
              [\<lparr>msg_id = Some ''s1'', msg_author = ''Al'', msg_text = ''old'', msg_timestamp = None\<rparr>]))
           ws_init))
   = [\<lparr>msg_id = Some ''s1'', msg_author = ''Al'', msg_text = ''old'', msg_timestamp = None\<rparr>,
      \<lparr>msg_id = Some ''e1'', msg_author = ''Al'', msg_text = ''one'', msg_timestamp = None\<rparr>,
      \<lparr>msg_id = Some ''e2'', msg_author = ''Bo'', msg_text = ''two'', msg_timestamp = None\<rparr>,
      \<lparr>msg_id = Some ''e3'', msg_author = ''Cy'', msg_text = ''three'', msg_timestamp = None\<rparr>]"
  using creates_keep_delivery_order
    [of "[\<lparr>msg_id = Some ''e1'', msg_author = ''Al'', msg_text = ''one'', msg_timestamp = None\<rparr>,
          \<lparr>msg_id = Some ''e2'', msg_author = ''Bo'', msg_text = ''two'', msg_timestamp = None\<rparr>,
          \<lparr>msg_id = Some ''e3'', msg_author = ''Cy'', msg_text = ''three'', msg_timestamp = None\<rparr>]"
        "[\<lparr>msg_id = Some ''s1'', msg_author = ''Al'', msg_text = ''old'', msg_timestamp = None\<rparr>]"
        ws_init True sse_init]
  by (simp add: present_ids_def ws_init_def)

section \<open>Frames that do not decode\<close>

lemma ws_onmessage_malformed:
  "JSON_parse data = None \<Longrightarrow>
   ws_onmessage JSON_parse data s =
     Done (s\<lparr>console := console s @ [Error ''Failed to parse WebSocket message:'']\<rparr>)"
  by (simp add: ws_onmessage_def)

lemma ws_onmessage_Done: "\<exists>s'. ws_onmessage JSON_parse data s = Done s'"
  by (simp add: ws_onmessage_def split: option.splits)

lemma ws_deliver_cong:
  "messages s = messages s' \<Longrightarrow> messageIds s = messageIds s' \<Longrightarrow>
   messages (ws_deliver JSON_parse frames s) = messages (ws_deliver JSON_parse frames s')
   \<and> messageIds (ws_deliver JSON_parse frames s) = messageIds (ws_deliver JSON_parse frames s')"
proof (induction frames arbitrary: s s')
  case Nil
  then show ?case by (simp add: ws_deliver_def)
next
  case (Cons d ds)
  have "messages (state_of (ws_onmessage JSON_parse d s)) = messages (state_of (ws_onmessage JSON_parse d s'))"
    and "messageIds (state_of (ws_onmessage JSON_parse d s)) = messageIds (state_of (ws_onmessage JSON_parse d s'))"
    using Cons.prems
    by (simp_all add: ws_onmessage_messages ws_onmessage_messageIds ws_messages ws_messageIds
        split: option.splits)
  then show ?case
    using Cons.IH [of "state_of (ws_onmessage JSON_parse d s)" "state_of (ws_onmessage JSON_parse d s')"]
    by (simp add: ws_deliver_def)
qed

lemma ws_deliver_append:
  "ws_deliver JSON_parse (xs @ ys) s = ws_deliver JSON_parse ys (ws_deliver JSON_parse xs s)"
  by (simp add: ws_deliver_def)

lemma ws_deliver_malformed_dropped:
  assumes "JSON_parse data = None"
  shows "messages (ws_deliver JSON_parse (xs @ data # ys) s) = messages (ws_deliver JSON_parse (xs @ ys) s)
       \<and> messageIds (ws_deliver JSON_parse (xs @ data # ys) s)
           = messageIds (ws_deliver JSON_parse (xs @ ys) s)"
proof -
  let ?s = "ws_deliver JSON_parse xs s"
  have "ws_deliver JSON_parse (xs @ data # ys) s =
          ws_deliver JSON_parse ys (state_of (ws_onmessage JSON_parse data ?s))"
    by (simp add: ws_deliver_def)
  moreover have "messages (state_of (ws_onmessage JSON_parse data ?s)) = messages ?s"
    and "messageIds (state_of (ws_onmessage JSON_parse data ?s)) = messageIds ?s"
    using assms by (simp_all add: ws_onmessage_malformed)
  ultimately show ?thesis
    using ws_deliver_cong [of "state_of (ws_onmessage JSON_parse data ?s)" ?s JSON_parse ys]
    by (simp add: ws_deliver_append)
qed

lemma sse_onmessage_malformed:
  "JSON_parse data = None \<Longrightarrow> sse_onmessage JSON_parse data s = Uncaught SyntaxError s"
  by (simp add: sse_onmessage_def)

text \<open>
  C6. A frame that does not decode is dropped with a logged failure and the stream goes
  on. The WebSocket page does so: the failure is logged, and the collection and the
  tracker after a sequence of frames are those of the sequence without the frame
  (\<open>ws_onmessage_malformed\<close>, \<open>ws_deliver_malformed_dropped\<close>). The handler of the
  server-sent-events page has no \<^verbatim>\<open>try\<close>: the \<^verbatim>\<open>SyntaxError\<close> leaves it uncaught and
  the page logs nothing.
\<close>

theorem sse_malformed_frame_uncaught:
  "sse_onmessage (\<lambda>data. None) ''not json'' sse_init = Uncaught SyntaxError sse_init
   \<and> console (state_of (sse_onmessage (\<lambda>data. None) ''not json'' sse_init)) = []"
  by (simp add: sse_onmessage_def sse_init_def)

section \<open>A send that fails\<close>

lemma ws_sendMessage_failed:
  assumes "r = NetworkError \<or> r = Response False body"
  shows "text_input (state_of (ws_sendMessage r s)) = text_input s"
  using assms by (auto simp: ws_sendMessage_def Let_def)

lemma ws_sendMessage_failure_logged:
  assumes "r = NetworkError \<or> r = Response False body"
    and "trim (text_input s) \<noteq> []" and "trim (author_input s) \<noteq> []"
  shows "console (state_of (ws_sendMessage r s)) = console s @ [Error ''Failed to send message:'']"
  using assms by (auto simp: ws_sendMessage_def Let_def)

lemma ws_sendMessage_cleared:
  "text_input (state_of (ws_sendMessage r s)) \<noteq> text_input s \<Longrightarrow> \<exists>body. r = Response True body"
  by (cases r) (auto simp: ws_sendMessage_def Let_def split: if_splits)

lemma sse_sendMessage_response:
  "trim (text_input s) \<noteq> [] \<Longrightarrow> trim (author_input s) \<noteq> [] \<Longrightarrow>
   sse_sendMessage (Response ok body) s =
     Done (s\<lparr>requests := requests s @ [POST_publish (text_input s) (author_input s)],
             text_input := []\<rparr>)"
  by (simp add: sse_sendMessage_def)

text \<open>
  C7. A failed send is reported and leaves the text in place. The WebSocket page does so
  (\<open>ws_sendMessage_failed\<close>, \<open>ws_sendMessage_failure_logged\<close>) and clears the text on a
  successful response only (\<open>ws_sendMessage_cleared\<close>). The server-sent-events page
  clears the text after every response: with the text \<open>hi\<close>, the author \<open>Al\<close> and a
  response that is not a success, the text is cleared and nothing is logged.
\<close>

theorem sse_sendMessage_failed_response_clears_text:
  "sse_sendMessage (Response False None) (sse_init\<lparr>text_input := ''hi'', author_input := ''Al''\<rparr>)
   = Done (sse_init\<lparr>text_input := [], author_input := ''Al'',
                    requests := [POST_publish ''hi'' ''Al'']\<rparr>)"
  by (simp add: sse_sendMessage_def sse_init_def trim_def is_space_def)

section \<open>A snapshot that cannot be loaded\<close>

lemma sse_fold_messages_cong:
  "messages s = messages s' \<Longrightarrow>
   messages (fold sse_handleNewMessage evs s) = messages (fold sse_handleNewMessage evs s')"
  by (induction evs arbitrary: s s') (simp_all add: sse_messages)

lemma ws_fold_messages_cong:
  "messages s = messages s' \<Longrightarrow> messageIds s = messageIds s' \<Longrightarrow>
   messages (fold ws_handleNewMessage evs s) = messages (fold ws_handleNewMessage evs s')
   \<and> messageIds (fold ws_handleNewMessage evs s) = messageIds (fold ws_handleNewMessage evs s')"
  by (induction evs arbitrary: s s') (simp_all add: ws_messages ws_messageIds)

lemma sse_loadMessages_failed:
  "r = NetworkError \<or> r = Response ok None \<Longrightarrow>
   sse_loadMessages r s =
     s\<lparr>requests := requests s @ [GET_messages],
       console := console s @ [Error ''Failed to load messages:'']\<rparr>"
  by (auto simp: sse_loadMessages_def)

lemma ws_loadMessages_failed:
  "r = NetworkError \<or> r = Response ok None \<Longrightarrow>
   ws_loadMessages r s =
     s\<lparr>requests := requests s @ [GET_messages],
       console := console s @ [Error ''Failed to load messages:'']\<rparr>"
  by (auto simp: ws_loadMessages_def)

text \<open>
  When the fetch of the snapshot is rejected, or the body of the response does not
  decode, both pages start with an empty collection, log the failure, apply live events
  as on the initial state, and have sent one request (no retry).
\<close>

lemma loadMessages_failure:
  assumes "r = NetworkError \<or> r = Response ok None"
  shows "messages (sse_loadMessages r sse_init) = []
       \<and> console (sse_loadMessages r sse_init) = [Error ''Failed to load messages:'']
       \<and> requests (sse_loadMessages r sse_init) = [GET_messages]
       \<and> messages (fold sse_handleNewMessage evs (sse_loadMessages r sse_init))
           = messages (fold sse_handleNewMessage evs sse_init)
       \<and> messages (ws_loadMessages r ws_init) = []
       \<and> messageIds (ws_loadMessages r ws_init) = {}
       \<and> console (ws_loadMessages r ws_init) = [Error ''Failed to load messages:'']
       \<and> requests (ws_loadMessages r ws_init) = [GET_messages]
       \<and> messages (fold ws_handleNewMessage evs (ws_loadMessages r ws_init))
           = messages (fold ws_handleNewMessage evs ws_init)"
proof -
  have s: "sse_loadMessages r sse_init =
             sse_init\<lparr>requests := [GET_messages], console := [Error ''Failed to load messages:'']\<rparr>"
    using assms by (simp add: sse_loadMessages_failed [of r ok] sse_init_def)
  have w: "ws_loadMessages r ws_init =
             ws_init\<lparr>requests := [GET_messages], console := [Error ''Failed to load messages:'']\<rparr>"
    using assms by (simp add: ws_loadMessages_failed [of r ok] ws_init_def)
  have "messages (fold sse_handleNewMessage evs (sse_loadMessages r sse_init))
          = messages (fold sse_handleNewMessage evs sse_init)"
    by (rule sse_fold_messages_cong) (simp add: s)
  moreover
  have "messages (fold ws_handleNewMessage evs (ws_loadMessages r ws_init))
          = messages (fold ws_handleNewMessage evs ws_init)"
    using ws_fold_messages_cong [of "ws_loadMessages r ws_init" ws_init evs] by (simp add: w)
  ultimately show ?thesis
    by (simp add: s w) (simp add: sse_init_def ws_init_def)
qed

lemma loadMessages_failure_example:
  "messages (sse_loadMessages NetworkError sse_init) = []
   \<and> console (sse_loadMessages NetworkError sse_init) = [Error ''Failed to load messages:'']
   \<and> messages
       (fold sse_handleNewMessage
          [\<lparr>msg_id = Some ''b'', msg_author = ''Bo'', msg_text = ''yo'', msg_timestamp = Some 105\<rparr>]
          (sse_loadMessages NetworkError sse_init))
     = [\<lparr>msg_id = Some ''b'', msg_author = ''Bo'', msg_text = ''yo'', msg_timestamp = Some 105\<rparr>]
   \<and> messages
       (fold ws_handleNewMessage
          [\<lparr>msg_id = Some ''b'', msg_author = ''Bo'', msg_text = ''yo'', msg_timestamp = Some 105\<rparr>]
          (ws_loadMessages NetworkError ws_init))
     = [\<lparr>msg_id = Some ''b'', msg_author = ''Bo'', msg_text = ''yo'', msg_timestamp = Some 105\<rparr>]"
  using loadMessages_failure
    [of NetworkError True
        "[\<lparr>msg_id = Some ''b'', msg_author = ''Bo'', msg_text = ''yo'', msg_timestamp = Some 105\<rparr>]"]
  by (simp add: sse_handleNewMessage_def ws_handleNewMessage_def sse_init_def ws_init_def
      findIndex_def)

text \<open>
  C9. A snapshot fetch that fails, by a network error or by a response that is not a
  success, leaves the collection empty and is reported. Both pages do so for a rejected
  fetch and for a body that does not decode (\<open>loadMessages_failure\<close>). Neither reads
  \<^verbatim>\<open>response.ok\<close>: a response that is not a success and whose body is an array of
  messages becomes the collection, and nothing is logged.
\<close>

theorem loadMessages_non_ok_response_used:
  "messages
     (sse_loadMessages
        (Response False (Some
           [\<lparr>msg_id = Some ''a'', msg_author = ''Al'', msg_text = ''hi'', msg_timestamp = Some 100\<rparr>]))
        sse_init)
   = [\<lparr>msg_id = Some ''a'', msg_author = ''Al'', msg_text = ''hi'', msg_timestamp = Some 100\<rparr>]
   \<and> console
       (sse_loadMessages
          (Response False (Some
             [\<lparr>msg_id = Some ''a'', msg_author = ''Al'', msg_text = ''hi'', msg_timestamp = Some 100\<rparr>]))
          sse_init)
     = []
   \<and> messages
     (ws_loadMessages
        (Response False (Some
           [\<lparr>msg_id = Some ''a'', msg_author = ''Al'', msg_text = ''hi'', msg_timestamp = Some 100\<rparr>]))
        ws_init)
   = [\<lparr>msg_id = Some ''a'', msg_author = ''Al'', msg_text = ''hi'', msg_timestamp = Some 100\<rparr>]
   \<and> console
       (ws_loadMessages
          (Response False (Some
             [\<lparr>msg_id = Some ''a'', msg_author = ''Al'', msg_text = ''hi'', msg_timestamp = Some 100\<rparr>]))
          ws_init)
     = []"
  by (simp add: sse_loadMessages_def ws_loadMessages_def sse_init_def ws_init_def)

section \<open>Sending and editing\<close>

text \<open>
  C10. \<^verbatim>\<open>sendMessage\<close> and \<^verbatim>\<open>saveEdit\<close> leave the collection (and, on the WebSocket
  page, the tracker) as they found it, whatever the fetch gives and whether they return
  or are left by an exception. Both pages.
\<close>

theorem gateway_keeps_collection:
  "messages (state_of (sse_sendMessage r s)) = messages s
   \<and> messages (state_of (sse_saveEdit r i s)) = messages s
   \<and> messages (state_of (ws_sendMessage r w)) = messages w
   \<and> messageIds (state_of (ws_sendMessage r w)) = messageIds w
   \<and> messages (state_of (ws_saveEdit r i w)) = messages w
   \<and> messageIds (state_of (ws_saveEdit r i w)) = messageIds w"
  by (simp add: sse_sendMessage_messages sse_saveEdit_messages ws_sendMessage_messages
      ws_sendMessage_messageIds ws_saveEdit_messages ws_saveEdit_messageIds)

end
